theory Spec2Isabelle
  imports Complex_Main
begin

section \<open>JavaScript numbers\<close>

text \<open>
  The slider position is a JavaScript \<^verbatim>\<open>number\<close>, an IEEE 754 double. The model keeps
  the three kinds of non-finite results apart from the finite ones, so that a division by
  zero is a value of the model and not an unspecified term of HOL. A finite value is the
  real number the double stands for, and every arithmetic operation rounds its exact
  result to the nearest double, ties to the even mantissa, as the language does. The sign
  of zero is not represented.
\<close>

datatype jsnum = Num real | PosInf | NegInf | NaN

text \<open>The number of binary digits of a natural number.\<close>

fun bit_length :: "nat \<Rightarrow> nat" where
  "bit_length n = (if n = 0 then 0 else Suc (bit_length (n div 2)))"

declare bit_length.simps [simp del]

text \<open>For \<open>a > 0\<close>, the exponent \<open>e\<close> of the binade of \<open>a\<close>: \<open>2 ^ e \<le> a < 2 ^ (e + 1)\<close>.\<close>

definition binade :: "real \<Rightarrow> int" where
  "binade a =
     (if 1 \<le> a then int (bit_length (nat \<lfloor>a\<rfloor>)) - 1
      else - int (bit_length (nat (\<lceil>1 / a\<rceil> - 1))))"

definition pow2 :: "int \<Rightarrow> real" where
  "pow2 k = (if 0 \<le> k then 2 ^ nat k else 1 / 2 ^ nat (- k))"

text \<open>Rounding to the nearest integer, a tie going to the even one.\<close>

definition rne :: "real \<Rightarrow> int" where
  "rne m =
     (let f = \<lfloor>m\<rfloor>; d = m - of_int f
      in if d < 1 / 2 then f
         else if 1 / 2 < d then f + 1
         else if even f then f else f + 1)"

text \<open>
  Rounding a real to binary64: a mantissa of 53 bits, so the spacing of the doubles in the
  binade of exponent \<open>e\<close> is \<open>2 ^ (e - 52)\<close>; below the smallest normal exponent, -1022, the
  spacing stays that of the subnormal numbers. A result that reaches \<open>2 ^ 1024\<close> in
  magnitude overflows to an infinity.
\<close>

definition round_double :: "real \<Rightarrow> real" where
  "round_double x =
     (if x = 0 then 0
      else let e = max (binade \<bar>x\<bar>) (- 1022); q = pow2 (e - 52)
           in of_int (rne (x / q)) * q)"

definition fl :: "real \<Rightarrow> jsnum" where
  "fl x =
     (let r = round_double x
      in if 2 ^ 1024 \<le> r then PosInf
         else if r \<le> - (2 ^ 1024) then NegInf
         else Num r)"

fun js_sub :: "jsnum \<Rightarrow> jsnum \<Rightarrow> jsnum" where
  "js_sub NaN b = NaN"
| "js_sub a NaN = NaN"
| "js_sub (Num a) (Num b) = fl (a - b)"
| "js_sub (Num a) PosInf = NegInf"
| "js_sub (Num a) NegInf = PosInf"
| "js_sub PosInf PosInf = NaN"
| "js_sub PosInf b = PosInf"
| "js_sub NegInf NegInf = NaN"
| "js_sub NegInf b = NegInf"

text \<open>\<^verbatim>\<open>a / b\<close>: a finite non-zero number over zero is an infinity of its sign, zero over
  zero is NaN.\<close>

fun js_div :: "jsnum \<Rightarrow> jsnum \<Rightarrow> jsnum" where
  "js_div NaN b = NaN"
| "js_div a NaN = NaN"
| "js_div (Num a) (Num b) =
     (if b = 0 then (if a = 0 then NaN else if 0 < a then PosInf else NegInf)
      else fl (a / b))"
| "js_div (Num a) b = Num 0"
| "js_div PosInf (Num b) = (if 0 \<le> b then PosInf else NegInf)"
| "js_div NegInf (Num b) = (if 0 \<le> b then NegInf else PosInf)"
| "js_div a b = NaN"

fun js_mul :: "jsnum \<Rightarrow> jsnum \<Rightarrow> jsnum" where
  "js_mul NaN b = NaN"
| "js_mul a NaN = NaN"
| "js_mul (Num a) (Num b) = fl (a * b)"
| "js_mul PosInf (Num b) = (if b = 0 then NaN else if 0 < b then PosInf else NegInf)"
| "js_mul NegInf (Num b) = (if b = 0 then NaN else if 0 < b then NegInf else PosInf)"
| "js_mul (Num a) PosInf = (if a = 0 then NaN else if 0 < a then PosInf else NegInf)"
| "js_mul (Num a) NegInf = (if a = 0 then NaN else if 0 < a then NegInf else PosInf)"
| "js_mul PosInf PosInf = PosInf"
| "js_mul NegInf NegInf = PosInf"
| "js_mul a b = NegInf"

text \<open>\<^verbatim>\<open>Math.min\<close> and \<^verbatim>\<open>Math.max\<close> return NaN as soon as one argument is NaN.\<close>

fun Math_min :: "jsnum \<Rightarrow> jsnum \<Rightarrow> jsnum" where
  "Math_min NaN b = NaN"
| "Math_min a NaN = NaN"
| "Math_min NegInf b = NegInf"
| "Math_min a NegInf = NegInf"
| "Math_min PosInf b = b"
| "Math_min a PosInf = a"
| "Math_min (Num a) (Num b) = Num (min a b)"

fun Math_max :: "jsnum \<Rightarrow> jsnum \<Rightarrow> jsnum" where
  "Math_max NaN b = NaN"
| "Math_max a NaN = NaN"
| "Math_max PosInf b = PosInf"
| "Math_max a PosInf = PosInf"
| "Math_max NegInf b = b"
| "Math_max a NegInf = a"
| "Math_max (Num a) (Num b) = Num (max a b)"

text \<open>The invariant the specification gives for the position: a number between 0 and 100.\<close>

fun in_range :: "jsnum \<Rightarrow> bool" where
  "in_range (Num r) = (0 \<le> r \<and> r \<le> 100)"
| "in_range v = False"

section \<open>The comparison slider (image-slider.tsx, ImageSlider)\<close>

text \<open>
  The bounding rectangle returned by \<^verbatim>\<open>getBoundingClientRect()\<close>; only the two fields the
  component reads.
\<close>

record DOMRect =
  left :: real
  width :: real

text \<open>
  The state of one mounted component together with the part of the browser it acts on.
  \<^item> \<open>sliderPosition\<close>, \<open>isDragging\<close>, \<open>isHovering\<close>: the three \<^verbatim>\<open>useState\<close> cells;
  \<^item> \<open>containerRef\<close>: whether \<^verbatim>\<open>containerRef.current\<close> is an element (set at mount,
    null again after unmount);
  \<^item> \<open>animationFrameRef\<close>: \<^verbatim>\<open>animationFrameRef.current\<close>, undefined or a request id;
  \<^item> \<open>frameQueue\<close>: the callbacks this component has requested with
    \<^verbatim>\<open>requestAnimationFrame\<close> and that have neither run nor been cancelled, oldest first;
    each callback of the source is determined by the \<^verbatim>\<open>clientX\<close> its closure holds;
  \<^item> \<open>nextFrameId\<close>: the id the next \<^verbatim>\<open>requestAnimationFrame\<close> returns;
  \<^item> \<open>mousemoveListener\<close>: the \<^verbatim>\<open>mousemove\<close> listener on \<^verbatim>\<open>document\<close>, if one is
    registered, with the value of \<^verbatim>\<open>isDragging\<close> its closure holds;
  \<^item> \<open>mouseupListener\<close>: whether the \<^verbatim>\<open>mouseup\<close> listener is registered on
    \<^verbatim>\<open>document\<close>;
  \<^item> \<open>userSelect\<close>, \<open>cursor\<close>: the two style properties of \<^verbatim>\<open>document.body\<close>;
  \<^item> \<open>positionLog\<close>: the arguments of the calls of \<^verbatim>\<open>setSliderPosition\<close> so far, oldest
    first (a log kept by the model, to count the state updates).
\<close>

record slider =
  sliderPosition :: jsnum
  isDragging :: bool
  isHovering :: bool
  containerRef :: bool
  animationFrameRef :: "nat option"
  frameQueue :: "(nat \<times> real) list"
  nextFrameId :: nat
  mousemoveListener :: "bool option"
  mouseupListener :: bool
  userSelect :: string
  cursor :: string
  positionLog :: "jsnum list"

text \<open>The state after the first render and its effects: \<^verbatim>\<open>useState(50)\<close>,
  \<^verbatim>\<open>useState(false)\<close> twice, the drag effect run with \<^verbatim>\<open>isDragging\<close> false.\<close>

definition init :: slider where
  "init = \<lparr> sliderPosition = Num 50, isDragging = False, isHovering = False,
            containerRef = True, animationFrameRef = None, frameQueue = [],
            nextFrameId = 1, mousemoveListener = None, mouseupListener = False,
            userSelect = '''', cursor = '''', positionLog = [] \<rparr>"

subsection \<open>The frame scheduler\<close>

definition cancelAnimationFrame :: "nat \<Rightarrow> slider \<Rightarrow> slider" where
  "cancelAnimationFrame h s = s\<lparr>frameQueue := filter (\<lambda>(i, x). i \<noteq> h) (frameQueue s)\<rparr>"

definition requestAnimationFrame :: "real \<Rightarrow> slider \<Rightarrow> nat \<times> slider" where
  "requestAnimationFrame clientX s =
     (nextFrameId s,
      s\<lparr>frameQueue := frameQueue s @ [(nextFrameId s, clientX)],
        nextFrameId := Suc (nextFrameId s)\<rparr>)"

text \<open>\<^verbatim>\<open>if (animationFrameRef.current)\<close>: undefined and 0 are falsy.\<close>

fun truthy_id :: "nat option \<Rightarrow> bool" where
  "truthy_id None = False"
| "truthy_id (Some h) = (h \<noteq> 0)"

subsection \<open>State setters\<close>

text \<open>
  A state setter of an unmounted component does nothing. Setting \<^verbatim>\<open>isDragging\<close> to a new
  value re-renders, and the drag effect, whose dependencies hold \<^verbatim>\<open>isDragging\<close>, is
  cleaned up and run again; the model does this in the same step as the setter.
\<close>

definition setSliderPosition :: "jsnum \<Rightarrow> slider \<Rightarrow> slider" where
  "setSliderPosition v s =
     (if containerRef s
      then s\<lparr>sliderPosition := v, positionLog := positionLog s @ [v]\<rparr>
      else s)"

definition dragEffectCleanup :: "slider \<Rightarrow> slider" where
  "dragEffectCleanup s =
     s\<lparr>mousemoveListener := None, mouseupListener := False,
       userSelect := '''', cursor := ''''\<rparr>"

definition dragEffect :: "slider \<Rightarrow> slider" where
  "dragEffect s =
     (if isDragging s
      then s\<lparr>mousemoveListener := Some (isDragging s), mouseupListener := True,
             userSelect := ''none'', cursor := ''col-resize''\<rparr>
      else s)"

definition setIsDragging :: "bool \<Rightarrow> slider \<Rightarrow> slider" where
  "setIsDragging b s =
     (if \<not> containerRef s \<or> isDragging s = b then s
      else dragEffect (dragEffectCleanup (s\<lparr>isDragging := b\<rparr>)))"

definition setIsHovering :: "bool \<Rightarrow> slider \<Rightarrow> slider" where
  "setIsHovering b s = (if containerRef s then s\<lparr>isHovering := b\<rparr> else s)"

subsection \<open>updateSliderPosition and the frame callback\<close>

definition percentage :: "real \<Rightarrow> DOMRect \<Rightarrow> jsnum" where
  "percentage clientX rect =
     (let x = js_sub (Num clientX) (Num (left rect))
      in Math_max (Num 0) (Math_min (Num 100) (js_mul (js_div x (Num (width rect))) (Num 100))))"

definition frameCallback :: "DOMRect \<Rightarrow> slider \<Rightarrow> real \<Rightarrow> slider" where
  "frameCallback rect s clientX =
     (if \<not> containerRef s then s
      else setSliderPosition (percentage clientX rect) s)"

definition updateSliderPosition :: "real \<Rightarrow> slider \<Rightarrow> slider" where
  "updateSliderPosition clientX s =
     (if \<not> containerRef s then s
      else
        let s1 = (if truthy_id (animationFrameRef s)
                  then cancelAnimationFrame (the (animationFrameRef s)) s else s);
            (h, s2) = requestAnimationFrame clientX s1
        in s2\<lparr>animationFrameRef := Some h\<rparr>)"

text \<open>A display frame: the browser runs the queued callbacks, oldest first, each reading the
  rectangle the container has at that moment.\<close>

definition runFrame :: "DOMRect \<Rightarrow> slider \<Rightarrow> slider" where
  "runFrame rect s =
     foldl (frameCallback rect) (s\<lparr>frameQueue := []\<rparr>) (map snd (frameQueue s))"

subsection \<open>Event handlers\<close>

definition handleMouseMove :: "real \<Rightarrow> slider \<Rightarrow> slider" where
  "handleMouseMove clientX s = (if \<not> isDragging s then s else updateSliderPosition clientX s)"

definition handleTouchMove :: "real \<Rightarrow> slider \<Rightarrow> slider" where
  "handleTouchMove clientX s = (if \<not> isDragging s then s else updateSliderPosition clientX s)"

definition handleClick :: "real \<Rightarrow> slider \<Rightarrow> slider" where
  "handleClick clientX s = (if \<not> isDragging s then updateSliderPosition clientX s else s)"

text \<open>The two listeners on \<^verbatim>\<open>document\<close>; they run only while registered.\<close>

definition handleGlobalMouseMove :: "real \<Rightarrow> slider \<Rightarrow> slider" where
  "handleGlobalMouseMove clientX s =
     (case mousemoveListener s of
        None \<Rightarrow> s
      | Some dragging \<Rightarrow> if dragging then updateSliderPosition clientX s else s)"

definition handleGlobalMouseUp :: "slider \<Rightarrow> slider" where
  "handleGlobalMouseUp s = (if mouseupListener s then setIsDragging False s else s)"

definition onMouseLeave :: "slider \<Rightarrow> slider" where
  "onMouseLeave s = setIsHovering False (setIsDragging False s)"

text \<open>Unmount: the cleanup of the drag effect, the cleanup of the frame effect, and the ref
  is detached.\<close>

definition unmount :: "slider \<Rightarrow> slider" where
  "unmount s =
     (if \<not> containerRef s then s
      else
        let s1 = dragEffectCleanup s;
            s2 = (if truthy_id (animationFrameRef s1)
                  then cancelAnimationFrame (the (animationFrameRef s1)) s1 else s1)
        in s2\<lparr>containerRef := False\<rparr>)"

subsection \<open>Events\<close>

text \<open>
  A press lands on the handle or elsewhere on the track; only the handle has
  \<^verbatim>\<open>onMouseDown\<close> and \<^verbatim>\<open>onTouchStart\<close>. A mouse event inside the widget reaches the
  container's handler and then, bubbling, the listener on \<^verbatim>\<open>document\<close>; one outside the
  widget reaches only the latter. Touch events are delivered to the element the touch
  started on, so a touch that began in the widget reaches the container wherever the
  finger is. After unmount the elements are gone and only \<^verbatim>\<open>document\<close> and the frame
  scheduler can still call the component's code.
\<close>

datatype target = Handle | Track

datatype place = Inside | Outside

datatype event =
    MouseEnter
  | MouseLeave
  | MouseDown target
  | TouchStart target
  | MouseMove place real
  | MouseUp place
  | TouchMove real
  | TouchEnd
  | Click real
  | Frame DOMRect
  | Unmount

fun step :: "slider \<Rightarrow> event \<Rightarrow> slider" where
  "step s (Frame rect) = runFrame rect s"
| "step s (MouseMove p clientX) =
     (if containerRef s \<and> p = Inside
      then handleGlobalMouseMove clientX (handleMouseMove clientX s)
      else handleGlobalMouseMove clientX s)"
| "step s (MouseUp p) =
     (if containerRef s \<and> p = Inside
      then handleGlobalMouseUp (setIsDragging False s)
      else handleGlobalMouseUp s)"
| "step s MouseEnter = (if containerRef s then setIsHovering True s else s)"
| "step s MouseLeave = (if containerRef s then onMouseLeave s else s)"
| "step s (MouseDown t) = (if containerRef s \<and> t = Handle then setIsDragging True s else s)"
| "step s (TouchStart t) = (if containerRef s \<and> t = Handle then setIsDragging True s else s)"
| "step s (TouchMove clientX) = (if containerRef s then handleTouchMove clientX s else s)"
| "step s TouchEnd = (if containerRef s then setIsDragging False s else s)"
| "step s (Click clientX) = (if containerRef s then handleClick clientX s else s)"
| "step s Unmount = unmount s"

definition run :: "slider \<Rightarrow> event list \<Rightarrow> slider" where
  "run s es = foldl step s es"

text \<open>The phase of the specification, read off the two flags as the class names of the
  source do (\<^verbatim>\<open>isDragging\<close> first, \<^verbatim>\<open>isHovering && !isDragging\<close> second).\<close>

datatype phase = Idle | Hovering | Dragging

definition phase :: "slider \<Rightarrow> phase" where
  "phase s = (if isDragging s then Dragging else if isHovering s then Hovering else Idle)"

subsection \<open>Invariant of the mounted component\<close>

text \<open>
  At most one frame request is pending, and it is the one whose id
  \<^verbatim>\<open>animationFrameRef.current\<close> holds; request ids are never 0.
\<close>

definition queue_ok :: "slider \<Rightarrow> bool" where
  "queue_ok s =
     (nextFrameId s \<noteq> 0 \<and>
      (frameQueue s = [] \<or>
       truthy_id (animationFrameRef s) \<and>
       map fst (frameQueue s) = [the (animationFrameRef s)]))"

text \<open>
  The listeners on \<^verbatim>\<open>document\<close> and the two body styles are those of a drag exactly
  while the mounted component is dragging.
\<close>

definition listeners_ok :: "slider \<Rightarrow> bool" where
  "listeners_ok s =
     (if containerRef s \<and> isDragging s
      then mousemoveListener s = Some True \<and> mouseupListener s \<and>
           userSelect s = ''none'' \<and> cursor s = ''col-resize''
      else mousemoveListener s = None \<and> \<not> mouseupListener s \<and>
           userSelect s = '''' \<and> cursor s = '''')"

definition slider_inv :: "slider \<Rightarrow> bool" where
  "slider_inv s = (queue_ok s \<and> listeners_ok s)"

section \<open>The lazy-mount wrapper (LazySection.tsx)\<close>

text \<open>
  \<open>observer\<close> is the connected \<^verbatim>\<open>IntersectionObserver\<close>, if there is one, with the value
  of \<^verbatim>\<open>hasLoaded\<close> that the closure of its callback holds. The state \<open>lazy_init\<close> is the
  one after the first render and its effect (the wrapper's element is attached, so the
  observer observes it).
\<close>

record lazySection =
  isVisible :: bool
  hasLoaded :: bool
  observer :: "bool option"

definition lazy_init :: lazySection where
  "lazy_init = \<lparr> isVisible = False, hasLoaded = False, observer = Some False \<rparr>"

definition observerEffect :: "lazySection \<Rightarrow> lazySection" where
  "observerEffect s = s\<lparr>observer := Some (hasLoaded s)\<rparr>"

definition observerCleanup :: "lazySection \<Rightarrow> lazySection" where
  "observerCleanup s = s\<lparr>observer := None\<rparr>"

text \<open>
  The callback of the observer. When it sets the state, \<^verbatim>\<open>hasLoaded\<close> changes, the
  component re-renders and the effect, whose dependencies hold \<^verbatim>\<open>hasLoaded\<close>, is cleaned
  up and run again.
\<close>

definition observerCallback :: "bool \<Rightarrow> lazySection \<Rightarrow> lazySection" where
  "observerCallback isIntersecting s =
     (case observer s of
        None \<Rightarrow> s
      | Some loaded \<Rightarrow>
          if isIntersecting \<and> \<not> loaded
          then let s1 = s\<lparr>isVisible := True, hasLoaded := True, observer := None\<rparr>
               in if hasLoaded s1 \<noteq> hasLoaded s then observerEffect (observerCleanup s1) else s1
          else s)"

text \<open>The observer reports an entry, or the props \<^verbatim>\<open>threshold\<close> or \<^verbatim>\<open>rootMargin\<close>
  change and the effect runs again.\<close>

datatype lazy_event = Intersect bool | PropsChange

fun lazy_step :: "lazySection \<Rightarrow> lazy_event \<Rightarrow> lazySection" where
  "lazy_step s (Intersect isIntersecting) = observerCallback isIntersecting s"
| "lazy_step s PropsChange = observerEffect (observerCleanup s)"

definition lazy_run :: "lazySection \<Rightarrow> lazy_event list \<Rightarrow> lazySection" where
  "lazy_run s es = foldl lazy_step s es"

text \<open>What the wrapper renders: the \<^verbatim>\<open>minHeight\<close> of its element and its content, which is
  the children, the \<^verbatim>\<open>fallback\<close> prop when one is given, or the default pulsing block.\<close>

datatype content = Children | Fallback | Skeleton

record lazyView =
  minHeight :: string
  shown :: content

definition LazySection_render :: "bool \<Rightarrow> lazySection \<Rightarrow> lazyView" where
  "LazySection_render hasFallback s =
     \<lparr> minHeight = (if isVisible s then ''auto'' else ''200px''),
       shown = (if isVisible s then Children
                else if hasFallback then Fallback else Skeleton) \<rparr>"

text \<open>Invariant of the wrapper: it shows the children exactly when \<^verbatim>\<open>hasLoaded\<close> is
  set, and the connected observer holds the current \<^verbatim>\<open>hasLoaded\<close>.\<close>

definition lazy_ok :: "lazySection \<Rightarrow> bool" where
  "lazy_ok s = (isVisible s = hasLoaded s \<and> observer s = Some (hasLoaded s))"

section \<open>The optimized image (image-slider.tsx, OptimizedImage)\<close>

text \<open>
  The props and the state that decide what is shown, and the view: whether the spinner
  block is rendered, the \<^verbatim>\<open>src\<close> of the image element and its opacity class.

  The image element ends with \<^verbatim>\<open>{...props}\<close>, the props that the component does not
  destructure, written after \<^verbatim>\<open>onLoad={handleLoad}\<close> and \<^verbatim>\<open>onError={handleError}\<close>: an
  \<^verbatim>\<open>onLoad\<close> or \<^verbatim>\<open>onError\<close> passed by the caller replaces the component's handler.
  \<open>restOnLoad\<close> and \<open>restOnError\<close> say whether the caller passed one. The caller's
  handler cannot reach the two state cells of the component, so when it runs in place of
  the component's handler the state stays as it is. The props \<^verbatim>\<open>src\<close> and
  \<^verbatim>\<open>className\<close> are destructured and cannot be replaced this way.
\<close>

record imageProps =
  src :: string
  fallback :: "string option"
  restOnLoad :: bool
  restOnError :: bool

record imageState =
  isLoaded :: bool
  hasError :: bool

definition image_init :: imageState where
  "image_init = \<lparr> isLoaded = False, hasError = False \<rparr>"

definition handleLoad :: "imageState \<Rightarrow> imageState" where
  "handleLoad s = s\<lparr>isLoaded := True\<rparr>"

definition handleError :: "imageState \<Rightarrow> imageState" where
  "handleError s = s\<lparr>hasError := True, isLoaded := True\<rparr>"

text \<open>The load and the error event of the image element: the handler the element ends up
  with runs.\<close>

definition imgLoadEvent :: "imageProps \<Rightarrow> imageState \<Rightarrow> imageState" where
  "imgLoadEvent p s = (if restOnLoad p then s else handleLoad s)"

definition imgErrorEvent :: "imageProps \<Rightarrow> imageState \<Rightarrow> imageState" where
  "imgErrorEvent p s = (if restOnError p then s else handleError s)"

text \<open>\<^verbatim>\<open>hasError && fallback\<close>: an absent fallback and the empty string are falsy.\<close>

fun truthy_str :: "string option \<Rightarrow> bool" where
  "truthy_str None = False"
| "truthy_str (Some v) = (v \<noteq> [])"

record imageView =
  spinner :: bool
  imgSrc :: string
  imgClass :: string

definition OptimizedImage_render :: "imageProps \<Rightarrow> imageState \<Rightarrow> imageView" where
  "OptimizedImage_render p s =
     \<lparr> spinner = (\<not> isLoaded s),
       imgSrc = (if hasError s \<and> truthy_str (fallback p) then the (fallback p) else src p),
       imgClass = (if isLoaded s then ''opacity-100'' else ''opacity-0'') \<rparr>"

section \<open>The rounding is to the nearest double\<close>

text \<open>
  The exponent found by \<open>binade\<close> is that of the binade of its argument, and
  \<open>round_double\<close> returns a multiple of the spacing of that binade at most half a
  spacing away from its argument.
\<close>

lemma bit_length_pos: "0 < n \<Longrightarrow> 0 < bit_length n"
  by (subst bit_length.simps) simp

lemma bit_length_bounds:
  "0 < n \<Longrightarrow> 2 ^ (bit_length n - 1) \<le> n \<and> n < 2 ^ bit_length n"
proof (induction n rule: bit_length.induct)
  case (1 n)
  show ?case
  proof (cases "n div 2 = 0")
    case True
    with "1.prems" have "n = 1" by (simp add: div_eq_0_iff) 
    then show ?thesis
      by (simp add: bit_length.simps [of "Suc 0"] bit_length.simps [of 0])
  next
    case False
    then have m: "0 < n div 2" by simp
    from "1.prems" have n: "n \<noteq> 0" by simp
    have ih: "2 ^ (bit_length (n div 2) - 1) \<le> n div 2 \<and> n div 2 < 2 ^ bit_length (n div 2)"
      by (rule "1.IH" [OF n m])
    have bl: "bit_length n = Suc (bit_length (n div 2))"
      using n by (subst bit_length.simps) simp
    obtain k where k: "bit_length (n div 2) = Suc k"
      using bit_length_pos [OF m] by (cases "bit_length (n div 2)") simp_all
    from ih k have lo: "2 ^ k \<le> n div 2" and hi: "n div 2 < 2 * 2 ^ k" by simp_all
    have "2 * 2 ^ k \<le> n" using lo by linarith
    moreover have "n < 2 * (2 * 2 ^ k)" using hi by linarith
    ultimately show ?thesis
      by (simp add: bl k)
  qed
qed

lemma rne_nearest: "\<bar>of_int (rne m) - m\<bar> \<le> 1 / 2"
proof -
  have "of_int \<lfloor>m\<rfloor> \<le> m" "m < of_int \<lfloor>m\<rfloor> + 1" by linarith+
  then show ?thesis
    by (auto simp: rne_def Let_def)
qed

lemma binade_bounds:
  assumes "0 < a"
  shows "pow2 (binade a) \<le> a \<and> a < pow2 (binade a + 1)"
proof (cases "1 \<le> a")
  case True
  let ?n = "nat \<lfloor>a\<rfloor>"
  have n: "0 < ?n" using True by simp
  obtain k where k: "bit_length ?n = Suc k"
    using bit_length_pos [OF n] by (cases "bit_length ?n") simp_all
  from bit_length_bounds [OF n] k have lo: "2 ^ k \<le> ?n" and hi: "?n < 2 * 2 ^ k" by simp_all
  have rn: "real ?n = of_int \<lfloor>a\<rfloor>" using True by (simp add: of_nat_nat)
  have fl: "real ?n \<le> a" "a < real ?n + 1" unfolding rn by linarith+
  have "(2::real) ^ k \<le> real ?n" using lo by (metis of_nat_le_iff of_nat_numeral of_nat_power)
  then have a1: "2 ^ k \<le> a" using fl by linarith
  have "?n + 1 \<le> 2 * 2 ^ k" using hi by simp
  then have "real (?n + 1) \<le> real (2 * 2 ^ k)" by (rule of_nat_mono)
  then have "real ?n + 1 \<le> 2 * 2 ^ k" by simp
  then have a2: "a < 2 * 2 ^ k" using fl(2) by linarith
  have b: "binade a = int k" using True by (simp add: binade_def k)
  show ?thesis
    using a1 a2 by (simp add: b pow2_def nat_add_distrib)
next
  case False
  let ?m = "nat (\<lceil>1 / a\<rceil> - 1)"
  from False assms have inv: "1 < 1 / a" by simp
  then have c2: "2 \<le> \<lceil>1 / a\<rceil>" by linarith
  then have m: "0 < ?m" by simp
  obtain k where k: "bit_length ?m = Suc k"
    using bit_length_pos [OF m] by (cases "bit_length ?m") simp_all
  from bit_length_bounds [OF m] k have lo: "2 ^ k \<le> ?m" and hi: "?m < 2 * 2 ^ k" by simp_all
  have nn: "0 \<le> \<lceil>1 / a\<rceil> - 1" using c2 by linarith
  have "real ?m = of_int (\<lceil>1 / a\<rceil> - 1)" by (rule of_nat_nat [OF nn])
  then have rm: "real ?m = of_int \<lceil>1 / a\<rceil> - 1" by simp
  have ce: "real ?m < 1 / a" "1 / a \<le> real ?m + 1" unfolding rm by linarith+
  have "(2::real) ^ k \<le> real ?m" using lo by (metis of_nat_le_iff of_nat_numeral of_nat_power)
  then have g1: "2 ^ k < 1 / a" using ce by linarith
  have "?m + 1 \<le> 2 * 2 ^ k" using hi by simp
  then have "real (?m + 1) \<le> real (2 * 2 ^ k)" by (rule of_nat_mono)
  then have "real ?m + 1 \<le> 2 * 2 ^ k" by simp
  then have g2: "1 / a \<le> 2 * 2 ^ k" using ce(2) by linarith
  have p: "(0::real) < 2 ^ k" by simp
  have a1: "1 / (2 * 2 ^ k) \<le> a"
    using g2 assms p by (simp add: field_simps)
  have a2: "a < 1 / 2 ^ k"
    using g1 assms p by (simp add: field_simps)
  have b: "binade a = - int (Suc k)" using False by (simp add: binade_def k)
  show ?thesis
  proof (cases k)
    case 0
    then show ?thesis using a1 a2 by (simp add: b pow2_def)
  next
    case (Suc j)
    then show ?thesis using a1 a2 by (simp add: b pow2_def nat_add_distrib)
  qed
qed

lemma pow2_pos: "0 < pow2 k"
  by (simp add: pow2_def)

lemma round_double_nearest:
  assumes "x \<noteq> 0"
  shows "\<bar>round_double x - x\<bar> \<le> pow2 (max (binade \<bar>x\<bar>) (- 1022) - 52) / 2"
proof -
  let ?q = "pow2 (max (binade \<bar>x\<bar>) (- 1022) - 52)"
  have q: "0 < ?q" by (rule pow2_pos)
  have r: "round_double x = of_int (rne (x / ?q)) * ?q"
    using assms by (simp add: round_double_def Let_def)
  have "round_double x - x = (of_int (rne (x / ?q)) - x / ?q) * ?q"
    unfolding r using q by (simp add: field_simps)
  then have "\<bar>round_double x - x\<bar> = \<bar>of_int (rne (x / ?q)) - x / ?q\<bar> * ?q"
    using q by (simp add: abs_mult)
  also have "\<dots> \<le> (1 / 2) * ?q"
    using rne_nearest [of "x / ?q"] q by (intro mult_right_mono) simp_all
  finally show ?thesis by simp
qed

section \<open>Facts about the frame scheduler\<close>

lemma updateSliderPosition_queue_ok:
  assumes "containerRef s" "queue_ok s"
  shows "updateSliderPosition x s =
           s\<lparr>frameQueue := [(nextFrameId s, x)], nextFrameId := Suc (nextFrameId s),
             animationFrameRef := Some (nextFrameId s)\<rparr>"
proof (cases "frameQueue s")
  case Nil
  with assms show ?thesis
    by (simp add: updateSliderPosition_def cancelAnimationFrame_def requestAnimationFrame_def)
next
  case (Cons a q)
  with assms obtain h where h: "animationFrameRef s = Some h" "h \<noteq> 0" "fst a = h" "q = []"
    by (cases "animationFrameRef s") (auto simp: queue_ok_def)
  with Cons assms show ?thesis
    by (cases a)
       (simp add: updateSliderPosition_def cancelAnimationFrame_def requestAnimationFrame_def)
qed

lemma frameCallback_apply:
  "frameCallback rect s x =
     (if containerRef s
      then s\<lparr>sliderPosition := percentage x rect,
             positionLog := positionLog s @ [percentage x rect]\<rparr>
      else s)"
  by (simp add: frameCallback_def setSliderPosition_def)

lemma foldl_frameCallback:
  "foldl (frameCallback rect) s xs =
     (if containerRef s \<and> xs \<noteq> []
      then s\<lparr>sliderPosition := percentage (last xs) rect,
             positionLog := positionLog s @ map (\<lambda>x. percentage x rect) xs\<rparr>
      else s)"
proof (induction xs arbitrary: s)
  case Nil
  show ?case by simp
next
  case (Cons x xs)
  have "foldl (frameCallback rect) s (x # xs) =
          foldl (frameCallback rect) (frameCallback rect s x) xs"
    by simp
  also note Cons.IH [of "frameCallback rect s x"]
  finally have eq: "foldl (frameCallback rect) s (x # xs) =
      (if containerRef (frameCallback rect s x) \<and> xs \<noteq> []
       then (frameCallback rect s x)\<lparr>sliderPosition := percentage (last xs) rect,
              positionLog := positionLog (frameCallback rect s x) @
                map (\<lambda>x. percentage x rect) xs\<rparr>
       else frameCallback rect s x)" .
  show ?case
    unfolding eq by (simp add: frameCallback_apply)
qed

lemma runFrame_eq:
  "runFrame rect s =
     (if containerRef s \<and> frameQueue s \<noteq> []
      then s\<lparr>frameQueue := [],
             sliderPosition := percentage (snd (last (frameQueue s))) rect,
             positionLog := positionLog s @ map (\<lambda>q. percentage (snd q) rect) (frameQueue s)\<rparr>
      else s\<lparr>frameQueue := []\<rparr>)"
  by (simp add: runFrame_def foldl_frameCallback last_map comp_def)

section \<open>The invariant holds in every reachable state\<close>

lemma queue_ok_runFrame: "queue_ok s \<Longrightarrow> queue_ok (runFrame rect s)"
  by (simp add: runFrame_eq queue_ok_def)

lemma listeners_ok_runFrame: "listeners_ok s \<Longrightarrow> listeners_ok (runFrame rect s)"
  by (simp add: runFrame_eq listeners_ok_def)

lemma queue_ok_updateSliderPosition: "queue_ok s \<Longrightarrow> queue_ok (updateSliderPosition x s)"
  by (cases "containerRef s")
     (simp_all add: updateSliderPosition_queue_ok,
      simp_all add: queue_ok_def updateSliderPosition_def)

lemma listeners_ok_updateSliderPosition:
  "queue_ok s \<Longrightarrow> listeners_ok s \<Longrightarrow> listeners_ok (updateSliderPosition x s)"
  by (cases "containerRef s")
     (simp_all add: updateSliderPosition_queue_ok,
      simp_all add: listeners_ok_def updateSliderPosition_def)

lemma inv_updateSliderPosition: "slider_inv s \<Longrightarrow> slider_inv (updateSliderPosition x s)"
  by (simp add: slider_inv_def queue_ok_updateSliderPosition listeners_ok_updateSliderPosition)

lemma inv_setIsDragging: "slider_inv s \<Longrightarrow> slider_inv (setIsDragging b s)"
  by (simp add: slider_inv_def queue_ok_def listeners_ok_def setIsDragging_def dragEffect_def
      dragEffectCleanup_def)

lemma inv_setIsHovering: "slider_inv s \<Longrightarrow> slider_inv (setIsHovering b s)"
  by (simp add: slider_inv_def queue_ok_def listeners_ok_def setIsHovering_def)

lemma inv_runFrame: "slider_inv s \<Longrightarrow> slider_inv (runFrame rect s)"
  by (simp add: slider_inv_def queue_ok_runFrame listeners_ok_runFrame)

lemma inv_unmount: "slider_inv s \<Longrightarrow> slider_inv (unmount s)"
  by (auto simp: slider_inv_def queue_ok_def listeners_ok_def unmount_def dragEffectCleanup_def
      cancelAnimationFrame_def Let_def)

lemma inv_handleGlobalMouseMove: "slider_inv s \<Longrightarrow> slider_inv (handleGlobalMouseMove x s)"
  by (simp add: handleGlobalMouseMove_def inv_updateSliderPosition split: option.splits)

lemma inv_handleGlobalMouseUp: "slider_inv s \<Longrightarrow> slider_inv (handleGlobalMouseUp s)"
  by (simp add: handleGlobalMouseUp_def inv_setIsDragging)

lemma inv_step: "slider_inv s \<Longrightarrow> slider_inv (step s e)"
  by (cases e)
     (simp_all add: inv_runFrame inv_unmount inv_handleGlobalMouseMove inv_handleGlobalMouseUp
        inv_setIsDragging inv_setIsHovering inv_updateSliderPosition
        handleMouseMove_def handleTouchMove_def handleClick_def onMouseLeave_def)

lemma inv_init: "slider_inv init"
  by (simp add: slider_inv_def queue_ok_def listeners_ok_def init_def)

lemma inv_run: "slider_inv s \<Longrightarrow> slider_inv (run s es)"
  unfolding run_def by (induction es arbitrary: s) (simp_all add: inv_step)

section \<open>The recomputed position\<close>

lemmas fl_eval = fl_def round_double_def binade_def pow2_def rne_def Let_def bit_length.simps

lemma fl_not_NaN: "fl x \<noteq> NaN"
  by (simp add: fl_def Let_def)

lemma fl_zero: "fl 0 = Num 0"
  by (simp add: fl_eval)

lemma fl_one: "fl 1 = Num 1"
  by (simp add: fl_eval)

lemma fl_half: "fl (1 / 2) = Num (1 / 2)"
  by (simp add: fl_eval)

lemma fl_fifty: "fl 50 = Num 50"
  by (simp add: fl_eval)

lemma fl_hundred: "fl 100 = Num 100"
  by (simp add: fl_eval)

lemma clamp_in_range:
  "v \<noteq> NaN \<Longrightarrow> in_range (Math_max (Num 0) (Math_min (Num 100) v))"
  by (cases v) simp_all

lemma js_div_not_NaN: "v \<noteq> NaN \<Longrightarrow> W \<noteq> 0 \<Longrightarrow> js_div v (Num W) \<noteq> NaN"
  by (cases v) (simp_all add: fl_not_NaN)

lemma js_mul_hundred_not_NaN: "v \<noteq> NaN \<Longrightarrow> js_mul v (Num 100) \<noteq> NaN"
  by (cases v) (simp_all add: fl_not_NaN)

lemma percentage_expr:
  "percentage x \<lparr>left = L, width = W\<rparr> =
     Math_max (Num 0) (Math_min (Num 100)
       (js_mul (js_div (js_sub (Num x) (Num L)) (Num W)) (Num 100)))"
  by (simp add: percentage_def)

lemma percentage_in_range:
  "W \<noteq> 0 \<Longrightarrow> in_range (percentage x \<lparr>left = L, width = W\<rparr>)"
  unfolding percentage_expr
  by (intro clamp_in_range js_mul_hundred_not_NaN js_div_not_NaN) (simp_all add: fl_not_NaN)

lemma percentage_left_edge:
  "W \<noteq> 0 \<Longrightarrow> percentage L \<lparr>left = L, width = W\<rparr> = Num 0"
  by (simp add: percentage_expr fl_zero)

lemma percentage_right_edge:
  "W \<noteq> 0 \<Longrightarrow> js_sub (Num x) (Num L) = Num W \<Longrightarrow>
   percentage x \<lparr>left = L, width = W\<rparr> = Num 100"
  by (simp add: percentage_expr fl_one fl_hundred)

lemma percentage_middle:
  "W \<noteq> 0 \<Longrightarrow> js_sub (Num x) (Num L) = Num (W / 2) \<Longrightarrow>
   percentage x \<lparr>left = L, width = W\<rparr> = Num 50"
  by (simp add: percentage_expr fl_half fl_fifty)

lemma updateSliderPosition_fields:
  "isDragging (updateSliderPosition x s) = isDragging s"
  "isHovering (updateSliderPosition x s) = isHovering s"
  "containerRef (updateSliderPosition x s) = containerRef s"
  "sliderPosition (updateSliderPosition x s) = sliderPosition s"
  "positionLog (updateSliderPosition x s) = positionLog s"
  "mousemoveListener (updateSliderPosition x s) = mousemoveListener s"
  "mouseupListener (updateSliderPosition x s) = mouseupListener s"
  "userSelect (updateSliderPosition x s) = userSelect s"
  "cursor (updateSliderPosition x s) = cursor s"
  by (simp_all add: updateSliderPosition_def requestAnimationFrame_def cancelAnimationFrame_def)

lemma frameQueue_updateSliderPosition:
  "containerRef s \<Longrightarrow>
   frameQueue (updateSliderPosition x s) \<noteq> [] \<and>
   snd (last (frameQueue (updateSliderPosition x s))) = x"
  by (simp add: updateSliderPosition_def requestAnimationFrame_def cancelAnimationFrame_def)

lemma recompute_position:
  "containerRef s \<Longrightarrow>
   sliderPosition (runFrame rect (updateSliderPosition x s)) = percentage x rect"
  by (simp add: runFrame_eq frameQueue_updateSliderPosition updateSliderPosition_fields)

text \<open>
  Claim C1. The specification asks that a recompute which finds a bounding rectangle of
  width zero be skipped, the position keeping its previous value and never becoming NaN
  or infinite. The frame callback has no such guard: it divides by the width it
  measured. From the initial position 50, with a rectangle of width 0 and left edge 0, the
  recompute for \<^verbatim>\<open>clientX = 0\<close> sets the position to NaN (0 / 0), and the recompute for
  \<^verbatim>\<open>clientX = 5\<close> sets it to 100 (5 / 0 is Infinity, clamped); in neither case is the
  previous value kept.
\<close>

theorem zero_width_recompute_not_skipped:
  "sliderPosition init = Num 50 \<and>
   sliderPosition (step (updateSliderPosition 0 init) (Frame \<lparr>left = 0, width = 0\<rparr>)) = NaN \<and>
   sliderPosition (step (updateSliderPosition 5 init) (Frame \<lparr>left = 0, width = 0\<rparr>)) = Num 100"
proof -
  have m: "containerRef init" by (simp add: init_def)
  have i: "sliderPosition init = Num 50" by (simp add: init_def)
  have p0: "percentage 0 \<lparr>left = 0, width = 0\<rparr> = NaN"
    by (simp add: percentage_def fl_eval)
  have p5: "percentage 5 \<lparr>left = 0, width = 0\<rparr> = Num 100"
    by (simp add: percentage_def fl_eval)
  show ?thesis
    using i by (simp add: recompute_position [OF m] p0 p5)
qed

text \<open>
  Claim C2, as stated: with a rectangle of left edge \<open>L\<close> and width \<open>W\<close>,
  \<^verbatim>\<open>updatePosition(L + W)\<close> yields exactly 100. It fails in double arithmetic. Let the left
  edge be the double 0.1 and the width 4; \<open>L + W\<close> is then the double 4.1. The callback
  computes \<open>4.1 - 0.1\<close>, which rounds to the double just below 4, and the position it
  sets is the double just below 100 (printed 99.99999999999999), not 100.
\<close>

theorem right_edge_rounds_below_hundred:
  "fl (1 / 10) = Num (3602879701896397 / 36028797018963968) \<and>
   fl (3602879701896397 / 36028797018963968 + 4) = Num (2308094809027379 / 562949953421312) \<and>
   sliderPosition
     (step (updateSliderPosition (2308094809027379 / 562949953421312) init)
        (Frame \<lparr>left = 3602879701896397 / 36028797018963968, width = 4\<rparr>))
     = Num (7036874417766399 / 70368744177664) \<and>
   sliderPosition
     (step (updateSliderPosition (2308094809027379 / 562949953421312) init)
        (Frame \<lparr>left = 3602879701896397 / 36028797018963968, width = 4\<rparr>))
     \<noteq> Num 100"
proof -
  have m: "containerRef init" by (simp add: init_def)
  have a: "fl (1 / 10) = Num (3602879701896397 / 36028797018963968)"
    by (simp add: fl_eval)
  have b: "fl (3602879701896397 / 36028797018963968 + 4) =
           Num (2308094809027379 / 562949953421312)"
    by (simp add: fl_eval)
  have d: "js_sub (Num (2308094809027379 / 562949953421312))
             (Num (3602879701896397 / 36028797018963968)) =
           Num (9007199254740991 / 2251799813685248)"
    by (simp add: fl_eval)
  have q: "js_div (Num (9007199254740991 / 2251799813685248)) (Num 4) =
           Num (9007199254740991 / 9007199254740992)"
    by (simp add: fl_eval)
  have h: "js_mul (Num (9007199254740991 / 9007199254740992)) (Num 100) =
           Num (7036874417766399 / 70368744177664)"
    by (simp add: fl_eval)
  have p: "percentage (2308094809027379 / 562949953421312)
             \<lparr>left = 3602879701896397 / 36028797018963968, width = 4\<rparr> =
           Num (7036874417766399 / 70368744177664)"
    unfolding percentage_expr d q h by simp
  show ?thesis
    using a b by (simp add: recompute_position [OF m] p)
qed

text \<open>
  Claim C2, amended. When the widget is mounted and its bounding rectangle has left edge
  \<open>L\<close> and a width \<open>W > 0\<close>, a call \<^verbatim>\<open>updatePosition(clientX)\<close> followed by the frame sets
  the position to \<open>clamp(((clientX - L) / W) * 100, 0, 100)\<close> as computed in double
  arithmetic, each operation rounded. For every \<^verbatim>\<open>clientX\<close>, however far outside the
  container on either side, the position is a number between 0 and 100.
  \<^verbatim>\<open>updatePosition(L)\<close> yields 0. A coordinate whose computed difference
  \<open>clientX - L\<close> is exactly \<open>W\<close> yields 100, and one whose computed difference is
  exactly \<open>W / 2\<close> yields 50.
\<close>

theorem updatePosition_clamped:
  assumes "containerRef s" and "0 < W"
  shows "(\<forall>x. sliderPosition (step (updateSliderPosition x s) (Frame \<lparr>left = L, width = W\<rparr>))
              = Math_max (Num 0) (Math_min (Num 100)
                  (js_mul (js_div (js_sub (Num x) (Num L)) (Num W)) (Num 100))) \<and>
            in_range (sliderPosition
              (step (updateSliderPosition x s) (Frame \<lparr>left = L, width = W\<rparr>)))) \<and>
         sliderPosition (step (updateSliderPosition L s) (Frame \<lparr>left = L, width = W\<rparr>))
           = Num 0 \<and>
         (\<forall>x. js_sub (Num x) (Num L) = Num W \<longrightarrow>
            sliderPosition (step (updateSliderPosition x s) (Frame \<lparr>left = L, width = W\<rparr>))
              = Num 100) \<and>
         (\<forall>x. js_sub (Num x) (Num L) = Num (W / 2) \<longrightarrow>
            sliderPosition (step (updateSliderPosition x s) (Frame \<lparr>left = L, width = W\<rparr>))
              = Num 50)"
proof -
  have w: "W \<noteq> 0" using assms(2) by simp
  have pos: "sliderPosition (step (updateSliderPosition x s) (Frame \<lparr>left = L, width = W\<rparr>))
             = percentage x \<lparr>left = L, width = W\<rparr>" for x
    using assms(1) by (simp add: recompute_position)
  show ?thesis
    unfolding pos
    using percentage_expr [of _ L W] percentage_in_range [OF w, of _ L]
      percentage_left_edge [OF w, of L] percentage_right_edge [OF w, of _ L]
      percentage_middle [OF w, of _ L]
    by blast
qed

theorem updatePosition_clamped_witness:
  "sliderPosition (step (updateSliderPosition 30 init) (Frame \<lparr>left = 10, width = 80\<rparr>)) = Num 25 \<and>
   sliderPosition (step (updateSliderPosition 1000 init) (Frame \<lparr>left = 10, width = 80\<rparr>)) = Num 100 \<and>
   sliderPosition (step (updateSliderPosition (-1000) init) (Frame \<lparr>left = 10, width = 80\<rparr>)) = Num 0 \<and>
   sliderPosition (step (updateSliderPosition 10 init) (Frame \<lparr>left = 10, width = 80\<rparr>)) = Num 0 \<and>
   sliderPosition (step (updateSliderPosition 90 init) (Frame \<lparr>left = 10, width = 80\<rparr>)) = Num 100 \<and>
   sliderPosition (step (updateSliderPosition 50 init) (Frame \<lparr>left = 10, width = 80\<rparr>)) = Num 50"
proof -
  have m: "containerRef init" by (simp add: init_def)
  have w: "(0::real) < 80" by simp
  note t = updatePosition_clamped [OF m w, of 10]
  have e30: "Math_max (Num 0) (Math_min (Num 100)
               (js_mul (js_div (js_sub (Num 30) (Num 10)) (Num 80)) (Num 100))) = Num 25"
    by (simp add: fl_eval)
  have e1000: "Math_max (Num 0) (Math_min (Num 100)
               (js_mul (js_div (js_sub (Num 1000) (Num 10)) (Num 80)) (Num 100))) = Num 100"
    by (simp add: fl_eval)
  have em1000: "Math_max (Num 0) (Math_min (Num 100)
               (js_mul (js_div (js_sub (Num (- 1000)) (Num 10)) (Num 80)) (Num 100))) = Num 0"
    by (simp add: fl_eval)
  have s90: "js_sub (Num 90) (Num 10) = Num 80" by (simp add: fl_eval)
  have s50: "js_sub (Num 50) (Num 10) = Num (80 / 2)" by (simp add: fl_eval)
  have a: "sliderPosition (step (updateSliderPosition 30 init) (Frame \<lparr>left = 10, width = 80\<rparr>))
           = Num 25"
    using t e30 by metis
  have b: "sliderPosition (step (updateSliderPosition 1000 init) (Frame \<lparr>left = 10, width = 80\<rparr>))
           = Num 100"
    using t e1000 by metis
  have c: "sliderPosition (step (updateSliderPosition (- 1000) init) (Frame \<lparr>left = 10, width = 80\<rparr>))
           = Num 0"
    using t em1000 by metis
  have d: "sliderPosition (step (updateSliderPosition 10 init) (Frame \<lparr>left = 10, width = 80\<rparr>))
           = Num 0"
    using t by blast
  have e: "sliderPosition (step (updateSliderPosition 90 init) (Frame \<lparr>left = 10, width = 80\<rparr>))
           = Num 100"
    using t s90 by blast
  have f: "sliderPosition (step (updateSliderPosition 50 init) (Frame \<lparr>left = 10, width = 80\<rparr>))
           = Num 50"
    using t s50 by blast
  show ?thesis
    using a b c d e f by blast
qed

section \<open>Coalescing of updates within a frame\<close>

lemma foldl_updateSliderPosition:
  assumes "containerRef s" "queue_ok s"
  shows "xs \<noteq> [] \<Longrightarrow>
         foldl (\<lambda>s x. updateSliderPosition x s) s xs =
           s\<lparr>frameQueue := [(nextFrameId s + length xs - 1, last xs)],
             nextFrameId := nextFrameId s + length xs,
             animationFrameRef := Some (nextFrameId s + length xs - 1)\<rparr>"
proof (induction xs rule: rev_induct)
  case Nil
  then show ?case by simp
next
  case (snoc x xs)
  show ?case
  proof (cases "xs = []")
    case True
    with assms show ?thesis
      by (simp add: updateSliderPosition_queue_ok)
  next
    case False
    let ?t = "foldl (\<lambda>s x. updateSliderPosition x s) s xs"
    have t: "?t = s\<lparr>frameQueue := [(nextFrameId s + length xs - 1, last xs)],
             nextFrameId := nextFrameId s + length xs,
             animationFrameRef := Some (nextFrameId s + length xs - 1)\<rparr>"
      using snoc.IH False by simp
    have len: "0 < length xs" using False by simp
    have ct: "containerRef ?t" using assms(1) by (simp add: t)
    have pos: "0 < nextFrameId s" using assms(2) by (simp add: queue_ok_def)
    have nz: "nextFrameId s + length xs - 1 \<noteq> 0" using pos len by arith
    have qt: "queue_ok ?t" using nz pos by (simp add: t queue_ok_def)
    have "foldl (\<lambda>s x. updateSliderPosition x s) s (xs @ [x]) = updateSliderPosition x ?t"
      by simp
    also have "\<dots> = ?t\<lparr>frameQueue := [(nextFrameId ?t, x)], nextFrameId := Suc (nextFrameId ?t),
             animationFrameRef := Some (nextFrameId ?t)\<rparr>"
      by (rule updateSliderPosition_queue_ok [OF ct qt])
    finally show ?thesis
      by (simp add: t)
  qed
qed

text \<open>
  Claim C3. Let the widget be mounted, in a state that satisfies the invariant (every
  reachable state does), and let \<^verbatim>\<open>updatePosition\<close> be called with the coordinates of a
  non-empty list \<open>xs\<close>, one after the other, before the next frame. The calls themselves
  apply no state update and leave the position as it was; each call cancels the request
  of the one before, so that exactly one request is pending, holding the last coordinate.
  When the frame fires, exactly one call of \<^verbatim>\<open>setSliderPosition\<close> is made, its value is
  the one computed from the last coordinate, and nothing is left pending.
\<close>

theorem updates_coalesce_per_frame:
  assumes "containerRef s" and "slider_inv s" and "xs \<noteq> []"
  shows "positionLog (foldl (\<lambda>s x. updateSliderPosition x s) s xs) = positionLog s \<and>
         sliderPosition (foldl (\<lambda>s x. updateSliderPosition x s) s xs) = sliderPosition s \<and>
         map snd (frameQueue (foldl (\<lambda>s x. updateSliderPosition x s) s xs)) = [last xs] \<and>
         positionLog (step (foldl (\<lambda>s x. updateSliderPosition x s) s xs) (Frame rect))
           = positionLog s @ [percentage (last xs) rect] \<and>
         sliderPosition (step (foldl (\<lambda>s x. updateSliderPosition x s) s xs) (Frame rect))
           = percentage (last xs) rect \<and>
         frameQueue (step (foldl (\<lambda>s x. updateSliderPosition x s) s xs) (Frame rect)) = []"
proof -
  have q: "queue_ok s" using assms(2) by (simp add: slider_inv_def)
  show ?thesis
    using assms(1)
    by (simp add: foldl_updateSliderPosition [OF assms(1) q assms(3)] runFrame_eq)
qed

theorem updates_coalesce_per_frame_witness:
  "positionLog (step (foldl (\<lambda>s x. updateSliderPosition x s) init [10, 20, 30])
       (Frame \<lparr>left = 0, width = 40\<rparr>)) = [Num 75] \<and>
   sliderPosition (step (foldl (\<lambda>s x. updateSliderPosition x s) init [10, 20, 30])
       (Frame \<lparr>left = 0, width = 40\<rparr>)) = Num 75"
proof -
  have m: "containerRef init" by (simp add: init_def)
  have n: "[10, 20, 30] \<noteq> ([] :: real list)" by simp
  have l: "positionLog init = []" by (simp add: init_def)
  show ?thesis
    using updates_coalesce_per_frame [OF m inv_init n, of "\<lparr>left = 0, width = 40\<rparr>"]
    by (simp add: l percentage_def fl_eval)
qed

section \<open>The drag life cycle\<close>

lemma setIsDragging_fields:
  "containerRef (setIsDragging b s) = containerRef s"
  "isHovering (setIsDragging b s) = isHovering s"
  "isDragging (setIsDragging b s) = (if containerRef s then b else isDragging s)"
  by (auto simp: setIsDragging_def dragEffect_def dragEffectCleanup_def)

lemma setIsDragging_True_styles:
  "containerRef s \<Longrightarrow> \<not> isDragging s \<Longrightarrow>
   userSelect (setIsDragging True s) = ''none'' \<and> cursor (setIsDragging True s) = ''col-resize'' \<and>
   mousemoveListener (setIsDragging True s) = Some True \<and> mouseupListener (setIsDragging True s)"
  by (simp add: setIsDragging_def dragEffect_def dragEffectCleanup_def)

lemma setIsDragging_False_released:
  "containerRef s \<Longrightarrow> listeners_ok s \<Longrightarrow>
   userSelect (setIsDragging False s) = '''' \<and> cursor (setIsDragging False s) = '''' \<and>
   mousemoveListener (setIsDragging False s) = None \<and> \<not> mouseupListener (setIsDragging False s)"
  by (simp add: setIsDragging_def dragEffect_def dragEffectCleanup_def listeners_ok_def)

lemma handleGlobalMouseMove_isDragging:
  "isDragging (handleGlobalMouseMove x s) = isDragging s"
  "isHovering (handleGlobalMouseMove x s) = isHovering s"
  by (simp_all add: handleGlobalMouseMove_def updateSliderPosition_fields split: option.splits)

lemma move_keeps_flags:
  "isDragging (step s (MouseMove p x)) = isDragging s"
  "isDragging (step s (TouchMove x)) = isDragging s"
  by (simp_all add: handleGlobalMouseMove_isDragging handleMouseMove_def handleTouchMove_def
      updateSliderPosition_fields)




text \<open>
  Claim C5, as stated: a press on the handle or on the track starts a drag. It fails for
  the track: only the handle has \<^verbatim>\<open>onMouseDown\<close> and \<^verbatim>\<open>onTouchStart\<close>, and a press
  elsewhere on the track leaves the phase Idle.
\<close>

theorem press_on_track_no_drag:
  "phase init = Idle \<and> phase (step init (MouseDown Track)) = Idle \<and>
   phase (step init (TouchStart Track)) = Idle"
  by (simp add: init_def phase_def)

text \<open>
  Claim C5, amended. For a mounted widget whose phase is Idle or Hovering, a press
  (mouse-down or touch-start) on the handle moves the phase to Dragging, sets
  \<^verbatim>\<open>user-select: none\<close> and the cursor \<^verbatim>\<open>col-resize\<close> on the body, and both stay so in
  every later state of the mounted widget whose phase is Dragging; a press on the track
  outside the handle changes nothing.
\<close>

theorem press_on_handle_starts_drag:
  assumes "containerRef s" and "slider_inv s" and "phase s \<noteq> Dragging"
  shows "phase (step s (MouseDown Handle)) = Dragging \<and>
         userSelect (step s (MouseDown Handle)) = ''none'' \<and>
         cursor (step s (MouseDown Handle)) = ''col-resize'' \<and>
         phase (step s (TouchStart Handle)) = Dragging \<and>
         userSelect (step s (TouchStart Handle)) = ''none'' \<and>
         cursor (step s (TouchStart Handle)) = ''col-resize'' \<and>
         step s (MouseDown Track) = s \<and> step s (TouchStart Track) = s \<and>
         (\<forall>es. containerRef (run (step s (MouseDown Handle)) es) \<and>
               phase (run (step s (MouseDown Handle)) es) = Dragging \<longrightarrow>
               userSelect (run (step s (MouseDown Handle)) es) = ''none'' \<and>
               cursor (run (step s (MouseDown Handle)) es) = ''col-resize'') \<and>
         (\<forall>es. containerRef (run (step s (TouchStart Handle)) es) \<and>
               phase (run (step s (TouchStart Handle)) es) = Dragging \<longrightarrow>
               userSelect (run (step s (TouchStart Handle)) es) = ''none'' \<and>
               cursor (run (step s (TouchStart Handle)) es) = ''col-resize'')"
proof -
  let ?t = "setIsDragging True s"
  have d: "\<not> isDragging s" using assms(3) by (simp add: phase_def split: if_splits)
  have md: "step s (MouseDown Handle) = ?t" using assms(1) by simp
  have ts: "step s (TouchStart Handle) = ?t" using assms(1) by simp
  have tr: "step s (MouseDown Track) = s" "step s (TouchStart Track) = s" by simp_all
  have dur: "containerRef (run ?t es) \<and> phase (run ?t es) = Dragging \<longrightarrow>
             userSelect (run ?t es) = ''none'' \<and> cursor (run ?t es) = ''col-resize''" for es
  proof -
    have "slider_inv (run ?t es)" using assms(2) by (simp add: inv_run inv_setIsDragging)
    then show ?thesis
      by (auto simp: slider_inv_def listeners_ok_def phase_def split: if_splits)
  qed
  have now: "phase ?t = Dragging"
    using assms(1) by (simp add: phase_def setIsDragging_fields)
  show ?thesis
    unfolding md ts tr
    using now setIsDragging_True_styles [OF assms(1) d] dur by blast
qed

theorem press_on_handle_starts_drag_witness:
  "phase (step init (MouseDown Handle)) = Dragging \<and>
   userSelect (step init (MouseDown Handle)) = ''none'' \<and>
   cursor (step init (MouseDown Handle)) = ''col-resize'' \<and>
   cursor (run (step init (MouseDown Handle)) [MouseMove Inside 3]) = ''col-resize''"
proof -
  have m: "containerRef init" by (simp add: init_def)
  have p: "phase init \<noteq> Dragging" by (simp add: init_def phase_def)
  have c: "containerRef (run (step init (MouseDown Handle)) [MouseMove Inside 3])"
    by (simp add: run_def init_def setIsDragging_fields handleGlobalMouseMove_def
        handleMouseMove_def updateSliderPosition_fields split: option.splits)
  have q: "phase (run (step init (MouseDown Handle)) [MouseMove Inside 3]) = Dragging"
    by (simp add: run_def init_def phase_def setIsDragging_fields move_keeps_flags
        handleGlobalMouseMove_isDragging handleMouseMove_def updateSliderPosition_fields)
  show ?thesis
    using press_on_handle_starts_drag [OF m inv_init p] c q by blast
qed

lemma idle_moves_ignored:
  assumes "\<not> isDragging s" and "mousemoveListener s = None"
  shows "step s (MouseMove p x) = s" and "step s (TouchMove x) = s"
  using assms
  by (simp_all add: handleGlobalMouseMove_def handleMouseMove_def handleTouchMove_def)

lemma release_setIsDragging:
  assumes "containerRef s" and "slider_inv s"
  shows "step s (MouseUp p) = setIsDragging False s" and "step s TouchEnd = setIsDragging False s"
proof -
  have l: "listeners_ok s" using assms(2) by (simp add: slider_inv_def)
  have r: "\<not> mouseupListener (setIsDragging False s)"
    using setIsDragging_False_released [OF assms(1) l] by simp
  have n: "\<not> mouseupListener s \<Longrightarrow> setIsDragging False s = s"
    using l assms(1) by (auto simp: listeners_ok_def setIsDragging_def split: if_splits)
  show "step s (MouseUp p) = setIsDragging False s"
    using assms(1) r n by (cases p) (auto simp: handleGlobalMouseUp_def)
  show "step s TouchEnd = setIsDragging False s"
    using assms(1) by simp
qed

text \<open>
  Claim C6, as stated: every release returns the phase to Idle. It fails when the button
  is released with the pointer over the widget: \<^verbatim>\<open>isHovering\<close> is still set and the phase
  is Hovering.
\<close>

theorem release_inside_is_hovering:
  "phase (run init [MouseEnter, MouseDown Handle]) = Dragging \<and>
   phase (run init [MouseEnter, MouseDown Handle, MouseUp Inside]) = Hovering"
  by (simp add: run_def init_def phase_def setIsHovering_def setIsDragging_def dragEffect_def
      dragEffectCleanup_def handleGlobalMouseUp_def)

text \<open>
  Claim C6, amended. For a mounted widget in a state that satisfies the invariant, a
  release (mouse-up inside or outside the widget, or touch-end) ends the drag: the phase
  becomes Hovering if the pointer is over the widget and Idle otherwise, the two listeners
  on the document are removed, text selection and cursor are restored, and pointer or
  touch movement after the release changes nothing in the state.
\<close>

theorem release_ends_drag:
  assumes "containerRef s" and "slider_inv s" and "e = MouseUp Inside \<or> e = MouseUp Outside \<or> e = TouchEnd"
  shows "phase (step s e) = (if isHovering s then Hovering else Idle) \<and>
         mousemoveListener (step s e) = None \<and> \<not> mouseupListener (step s e) \<and>
         userSelect (step s e) = '''' \<and> cursor (step s e) = '''' \<and>
         (\<forall>p x. step (step s e) (MouseMove p x) = step s e) \<and>
         (\<forall>x. step (step s e) (TouchMove x) = step s e)"
proof -
  let ?t = "setIsDragging False s"
  have e: "step s e = ?t"
    using assms(3) release_setIsDragging(1) [OF assms(1,2), of Inside]
      release_setIsDragging(1) [OF assms(1,2), of Outside]
      release_setIsDragging(2) [OF assms(1,2)]
    by blast
  have l: "listeners_ok s" using assms(2) by (simp add: slider_inv_def)
  have d: "\<not> isDragging ?t" using assms(1) by (simp add: setIsDragging_fields)
  have ph: "phase ?t = (if isHovering s then Hovering else Idle)"
    using assms(1) by (simp add: phase_def setIsDragging_fields)
  have rel: "userSelect ?t = '''' \<and> cursor ?t = '''' \<and>
             mousemoveListener ?t = None \<and> \<not> mouseupListener ?t"
    by (rule setIsDragging_False_released [OF assms(1) l])
  have mm: "mousemoveListener ?t = None" using rel by simp
  have mv: "\<forall>p x. step ?t (MouseMove p x) = ?t"
    using idle_moves_ignored(1) [OF d mm] by blast
  have tm: "\<forall>x. step ?t (TouchMove x) = ?t"
    using idle_moves_ignored(2) [OF d mm] by blast
  show ?thesis
    unfolding e using ph rel mv tm by blast
qed

theorem release_ends_drag_witness:
  "phase (step (run init [MouseDown Handle, MouseMove Inside 5]) (MouseUp Outside)) = Idle \<and>
   mousemoveListener (step (run init [MouseDown Handle, MouseMove Inside 5]) (MouseUp Outside)) = None \<and>
   cursor (step (run init [MouseDown Handle, MouseMove Inside 5]) (MouseUp Outside)) = '''' \<and>
   step (step (run init [MouseDown Handle, MouseMove Inside 5]) (MouseUp Outside)) (MouseMove Outside 9)
     = step (run init [MouseDown Handle, MouseMove Inside 5]) (MouseUp Outside)"
proof -
  let ?s = "run init [MouseDown Handle, MouseMove Inside 5]"
  have m: "containerRef ?s"
    by (simp add: run_def init_def setIsDragging_fields handleGlobalMouseMove_def
        handleMouseMove_def updateSliderPosition_fields split: option.splits)
  have h: "\<not> isHovering ?s"
    by (simp add: run_def init_def setIsDragging_fields handleGlobalMouseMove_isDragging
        handleMouseMove_def updateSliderPosition_fields)
  have i: "slider_inv ?s" by (rule inv_run [OF inv_init])
  have e: "MouseUp Outside = MouseUp Inside \<or> MouseUp Outside = MouseUp Outside \<or>
           MouseUp Outside = TouchEnd" by simp
  show ?thesis
    using release_ends_drag [OF m i e] h by (simp del: step.simps)
qed

section \<open>Click to jump\<close>

text \<open>
  Claim C7, as stated: a plain click updates the position without going through the
  per-frame scheduling. It fails: \<^verbatim>\<open>handleClick\<close> calls the same
  \<^verbatim>\<open>updateSliderPosition\<close> as a drag move. After a click at 30 the position is still 50
  and a frame request is pending; two clicks within one frame apply one update only, that
  of the second click.
\<close>

theorem click_goes_through_frame_scheduler:
  "sliderPosition (step init (Click 30)) = Num 50 \<and>
   frameQueue (step init (Click 30)) = [(1, 30)] \<and>
   positionLog (run init [Click 30, Click 60, Frame \<lparr>left = 0, width = 100\<rparr>]) = [Num 60]"
proof -
  have m: "containerRef init" and q: "queue_ok init" and d: "\<not> isDragging init"
    using inv_init by (simp_all add: init_def slider_inv_def)
  have c1: "step init (Click 30) = updateSliderPosition 30 init"
    using m d by (simp add: handleClick_def)
  have u1: "updateSliderPosition 30 init =
      init\<lparr>frameQueue := [(nextFrameId init, 30)], nextFrameId := Suc (nextFrameId init),
           animationFrameRef := Some (nextFrameId init)\<rparr>"
    by (rule updateSliderPosition_queue_ok [OF m q])
  have r: "run init [Click 30, Click 60, Frame \<lparr>left = 0, width = 100\<rparr>] =
           runFrame \<lparr>left = 0, width = 100\<rparr>
             (foldl (\<lambda>s x. updateSliderPosition x s) init [30, 60])"
    using m d by (simp add: run_def handleClick_def updateSliderPosition_fields)
  have n: "[30, 60] \<noteq> ([]::real list)" by simp
  have f: "foldl (\<lambda>s x. updateSliderPosition x s) init [30, 60] =
      init\<lparr>frameQueue := [(nextFrameId init + length [30, 60 :: real] - 1, last [30, 60])],
           nextFrameId := nextFrameId init + length [30, 60 :: real],
           animationFrameRef := Some (nextFrameId init + length [30, 60 :: real] - 1)\<rparr>"
    by (rule foldl_updateSliderPosition [OF m q n])
  have "positionLog (run init [Click 30, Click 60, Frame \<lparr>left = 0, width = 100\<rparr>]) = [Num 60]"
    unfolding r f by (simp add: runFrame_eq init_def percentage_def fl_eval)
  then show ?thesis
    unfolding c1 u1 by (simp add: init_def)
qed

text \<open>
  Claim C7, amended. For a mounted widget that is not dragging, in a state that satisfies
  the invariant, a plain click at \<open>x\<close> (press on the track, release, click) is one call
  \<^verbatim>\<open>updatePosition(x)\<close>: the phase is never Dragging, the click itself leaves the position
  unchanged and leaves exactly one frame request pending, for \<open>x\<close>, through the same
  per-frame scheduling as a drag move; when the frame fires the position is updated
  exactly once, to the value computed from \<open>x\<close>.
\<close>

theorem plain_click_schedules_update:
  assumes "containerRef s" and "slider_inv s" and "\<not> isDragging s"
  shows "step s (Click x) = updateSliderPosition x s \<and>
         run s [MouseDown Track, MouseUp Inside, Click x] = updateSliderPosition x s \<and>
         phase (step s (MouseDown Track)) \<noteq> Dragging \<and>
         phase (run s [MouseDown Track, MouseUp Inside]) \<noteq> Dragging \<and>
         phase (run s [MouseDown Track, MouseUp Inside, Click x]) \<noteq> Dragging \<and>
         sliderPosition (step s (Click x)) = sliderPosition s \<and>
         positionLog (step s (Click x)) = positionLog s \<and>
         map snd (frameQueue (step s (Click x))) = [x] \<and>
         sliderPosition (run s [Click x, Frame rect]) = percentage x rect \<and>
         positionLog (run s [Click x, Frame rect]) = positionLog s @ [percentage x rect]"
proof -
  have q: "queue_ok s" using assms(2) by (simp add: slider_inv_def)
  have c: "step s (Click x) = updateSliderPosition x s"
    using assms(1,3) by (simp add: handleClick_def)
  have up: "step s (MouseUp Inside) = s"
    using release_setIsDragging(1) [OF assms(1,2), of Inside] assms(3)
    by (simp add: setIsDragging_def del: step.simps)
  have tr: "step s (MouseDown Track) = s" by simp
  have r3: "run s [MouseDown Track, MouseUp Inside, Click x] = updateSliderPosition x s"
    unfolding run_def using tr up c by (simp del: step.simps)
  have r2: "run s [MouseDown Track, MouseUp Inside] = s"
    unfolding run_def using tr up by (simp del: step.simps)
  have r1: "run s [Click x, Frame rect] = runFrame rect (updateSliderPosition x s)"
    unfolding run_def using c by simp
  have nd: "phase s \<noteq> Dragging" using assms(3) by (simp add: phase_def)
  have nd': "phase (updateSliderPosition x s) \<noteq> Dragging"
    using assms(3) by (simp add: phase_def updateSliderPosition_fields)
  have u: "updateSliderPosition x s =
      s\<lparr>frameQueue := [(nextFrameId s, x)], nextFrameId := Suc (nextFrameId s),
        animationFrameRef := Some (nextFrameId s)\<rparr>"
    by (rule updateSliderPosition_queue_ok [OF assms(1) q])
  have fr: "sliderPosition (runFrame rect (updateSliderPosition x s)) = percentage x rect \<and>
            positionLog (runFrame rect (updateSliderPosition x s)) =
              positionLog s @ [percentage x rect]"
    using assms(1) by (simp add: u runFrame_eq)
  have q1: "map snd (frameQueue (updateSliderPosition x s)) = [x]" by (simp add: u)
  show ?thesis
    unfolding r3 r2 r1 c tr
    using nd nd' fr q1 by (simp add: updateSliderPosition_fields)
qed

theorem plain_click_schedules_update_witness:
  "step init (Click 20) = updateSliderPosition 20 init \<and>
   run init [MouseDown Track, MouseUp Inside, Click 20] = updateSliderPosition 20 init \<and>
   sliderPosition (run init [Click 20, Frame \<lparr>left = 0, width = 80\<rparr>]) = Num 25"
proof -
  have m: "containerRef init" and d: "\<not> isDragging init" by (simp_all add: init_def)
  show ?thesis
    using plain_click_schedules_update [OF m inv_init d, of 20 "\<lparr>left = 0, width = 80\<rparr>"]
    by (simp add: percentage_def fl_eval del: step.simps)
qed

section \<open>Unmount\<close>

lemma unmounted_inert:
  assumes "\<not> containerRef u" and "frameQueue u = []" and "mousemoveListener u = None"
    and "\<not> mouseupListener u"
  shows "step u e = u"
  using assms
  by (cases e)
     (simp_all add: runFrame_eq handleGlobalMouseMove_def handleGlobalMouseUp_def unmount_def)

lemma unmounted_inert_run:
  assumes "\<not> containerRef u" and "frameQueue u = []" and "mousemoveListener u = None"
    and "\<not> mouseupListener u"
  shows "run u es = u"
  unfolding run_def
  by (induction es) (simp_all add: unmounted_inert [OF assms])

text \<open>
  Claim C8. Unmounting a mounted widget in a state that satisfies the invariant, also in
  the middle of a drag, cancels the pending frame request, removes the two listeners on
  the document and restores the body styles; whatever happens afterwards (frames, mouse
  events on the document) the state does not change, so no update of the position fires
  after the unmount.
\<close>

theorem unmount_cancels_frame_and_listeners:
  assumes "containerRef s" and "slider_inv s"
  shows "frameQueue (step s Unmount) = [] \<and>
         mousemoveListener (step s Unmount) = None \<and> \<not> mouseupListener (step s Unmount) \<and>
         userSelect (step s Unmount) = '''' \<and> cursor (step s Unmount) = '''' \<and>
         (\<forall>es. run (step s Unmount) es = step s Unmount) \<and>
         (\<forall>es. sliderPosition (run (step s Unmount) es) = sliderPosition s \<and>
               positionLog (run (step s Unmount) es) = positionLog s)"
proof -
  let ?u = "unmount s"
  have q: "queue_ok s" using assms(2) by (simp add: slider_inv_def)
  have f: "frameQueue ?u = []"
    using assms(1) q
    by (auto simp: unmount_def dragEffectCleanup_def cancelAnimationFrame_def queue_ok_def Let_def)
  have o: "\<not> containerRef ?u" "mousemoveListener ?u = None" "\<not> mouseupListener ?u"
          "userSelect ?u = ''''" "cursor ?u = ''''"
          "sliderPosition ?u = sliderPosition s" "positionLog ?u = positionLog s"
    using assms(1)
    by (simp_all add: unmount_def dragEffectCleanup_def cancelAnimationFrame_def Let_def)
  have r: "run ?u es = ?u" for es
    by (rule unmounted_inert_run [OF o(1) f o(2) o(3)])
  show ?thesis
    using f o r by simp
qed

theorem unmount_cancels_frame_and_listeners_witness:
  "frameQueue (run init [MouseDown Handle, MouseMove Inside 5]) \<noteq> [] \<and>
   mouseupListener (run init [MouseDown Handle, MouseMove Inside 5]) \<and>
   frameQueue (step (run init [MouseDown Handle, MouseMove Inside 5]) Unmount) = [] \<and>
   \<not> mouseupListener (step (run init [MouseDown Handle, MouseMove Inside 5]) Unmount) \<and>
   sliderPosition (run (step (run init [MouseDown Handle, MouseMove Inside 5]) Unmount)
       [Frame \<lparr>left = 0, width = 10\<rparr>, MouseMove Outside 7, Frame \<lparr>left = 0, width = 10\<rparr>]) = Num 50"
proof -
  let ?s = "run init [MouseDown Handle, MouseMove Inside 5]"
  have m: "containerRef ?s"
    by (simp add: run_def init_def setIsDragging_fields handleGlobalMouseMove_def
        handleMouseMove_def updateSliderPosition_fields split: option.splits)
  have i: "slider_inv ?s" by (rule inv_run [OF inv_init])
  have s: "frameQueue ?s \<noteq> [] \<and> mouseupListener ?s \<and> sliderPosition ?s = Num 50"
    by (simp add: run_def init_def setIsDragging_def dragEffect_def dragEffectCleanup_def
        handleGlobalMouseMove_def handleMouseMove_def updateSliderPosition_fields
        frameQueue_updateSliderPosition)
  note t = unmount_cancels_frame_and_listeners [OF m i]
  have a: "frameQueue (step ?s Unmount) = []" using t by blast
  have b: "\<not> mouseupListener (step ?s Unmount)" using t by blast
  have c: "sliderPosition (run (step ?s Unmount)
       [Frame \<lparr>left = 0, width = 10\<rparr>, MouseMove Outside 7, Frame \<lparr>left = 0, width = 10\<rparr>])
       = sliderPosition ?s" using t by blast
  show ?thesis
    using a b c s by (simp del: step.simps)
qed

section \<open>The lazy-mount wrapper\<close>

lemma lazy_ok_step: "lazy_ok s \<Longrightarrow> lazy_ok (lazy_step s e)"
  by (cases e)
     (auto simp: lazy_ok_def observerCallback_def observerEffect_def observerCleanup_def)

lemma isVisible_step:
  "lazy_ok s \<Longrightarrow> isVisible (lazy_step s e) = (isVisible s \<or> e = Intersect True)"
  by (cases e)
     (auto simp: lazy_ok_def observerCallback_def observerEffect_def observerCleanup_def)

lemma isVisible_foldl:
  "lazy_ok s \<Longrightarrow>
   isVisible (foldl lazy_step s es) = (isVisible s \<or> Intersect True \<in> set es)"
proof (induction es arbitrary: s)
  case Nil
  show ?case by simp
next
  case (Cons e es)
  have "isVisible (foldl lazy_step (lazy_step s e) es) =
          (isVisible (lazy_step s e) \<or> Intersect True \<in> set es)"
    by (rule Cons.IH [OF lazy_ok_step [OF Cons.prems]])
  then show ?case
    using isVisible_step [OF Cons.prems, of e] by auto
qed

lemma lazy_ok_init: "lazy_ok lazy_init"
  by (simp add: lazy_ok_def lazy_init_def)

text \<open>
  Claim C9. After any sequence of observer reports and prop changes, the wrapper renders
  the placeholder (the fallback, or the default block) with a minimum height of 200px if
  no report so far was intersecting, and the children, with minimum height auto, if one
  was: it shows the placeholder until the first intersection and never returns to it,
  whatever is reported later.
\<close>

theorem lazy_section_placeholder_until_first_intersection:
  "LazySection_render hasFallback (lazy_run lazy_init es) =
     (if Intersect True \<in> set es
      then \<lparr>minHeight = ''auto'', shown = Children\<rparr>
      else \<lparr>minHeight = ''200px'', shown = (if hasFallback then Fallback else Skeleton)\<rparr>)"
proof -
  have "isVisible (lazy_run lazy_init es) = (Intersect True \<in> set es)"
    unfolding lazy_run_def using isVisible_foldl [OF lazy_ok_init, of es]
    by (simp add: lazy_init_def)
  then show ?thesis
    by (simp add: LazySection_render_def)
qed

section \<open>The optimized image\<close>

text \<open>
  Claim C10, as stated: whenever the error event of the image fires and no fallback was
  given, the loaded flag is set and the loading placeholder dismissed. It fails when the
  caller passes an \<^verbatim>\<open>onError\<close> of its own: spread after the component's handler, it
  replaces \<^verbatim>\<open>handleError\<close>, the loaded flag is never set, the spinner stays and the image
  stays transparent.
\<close>

theorem caller_onError_keeps_placeholder:
  "OptimizedImage_render
     \<lparr>src = ''a.png'', fallback = None, restOnLoad = False, restOnError = True\<rparr>
     (imgErrorEvent
        \<lparr>src = ''a.png'', fallback = None, restOnLoad = False, restOnError = True\<rparr>
        image_init)
   = \<lparr>spinner = True, imgSrc = ''a.png'', imgClass = ''opacity-0''\<rparr>"
  by (simp add: OptimizedImage_render_def imgErrorEvent_def image_init_def)

text \<open>
  Claim C10, amended. When the error event of the image fires, no fallback was given and
  the caller passed no \<^verbatim>\<open>onError\<close> of its own among the remaining props, the image keeps
  the original \<^verbatim>\<open>src\<close>, the loaded flag is set on the error so the spinner is gone and
  the image has the class of full opacity; the view is the same as after a successful
  load, so nothing shows the error.
\<close>

theorem image_error_without_fallback:
  assumes "fallback p = None" and "\<not> restOnError p"
  shows "OptimizedImage_render p (imgErrorEvent p s) =
           \<lparr>spinner = False, imgSrc = src p, imgClass = ''opacity-100''\<rparr> \<and>
         OptimizedImage_render p (imgErrorEvent p s) = OptimizedImage_render p (handleLoad s) \<and>
         hasError (imgErrorEvent p s) \<and> isLoaded (imgErrorEvent p s)"
  using assms
  by (simp add: OptimizedImage_render_def imgErrorEvent_def handleError_def handleLoad_def)

theorem image_error_without_fallback_witness:
  "OptimizedImage_render
     \<lparr>src = ''a.png'', fallback = None, restOnLoad = False, restOnError = False\<rparr>
     (imgErrorEvent
        \<lparr>src = ''a.png'', fallback = None, restOnLoad = False, restOnError = False\<rparr>
        image_init)
   = \<lparr>spinner = False, imgSrc = ''a.png'', imgClass = ''opacity-100''\<rparr>"
proof -
  have f: "fallback \<lparr>src = ''a.png'', fallback = None, restOnLoad = False,
             restOnError = False\<rparr> = None" by simp
  have e: "\<not> restOnError \<lparr>src = ''a.png'', fallback = None, restOnLoad = False,
             restOnError = False\<rparr>" by simp
  show ?thesis
    using image_error_without_fallback [OF f e, of image_init] by simp
qed

end
